theory Spec2Isabelle
  imports Main "HOL-Library.Sublist"
begin

section \<open>Data model\<close>

text \<open>
  The program is \<^verbatim>\<open>src/src/App.jsx\<close>: a React component that keeps a list of stories
  in a reducer, loads it asynchronously, filters it by a search term and keeps the search
  term in the browser's local storage.

  JavaScript values are modelled at the shapes the program builds. The \<^verbatim>\<open>objectID\<close>
  of a story is a number or a string; the two never compare equal under \<^verbatim>\<open>!==\<close>,
  which the two constructors give. Numbers are integers here, so \<^verbatim>\<open>NaN\<close> is outside
  the model. Strings are lists of 8-bit characters, so text is ASCII.
\<close>

datatype objid = Num int | Str string

record story =
  title :: string
  url :: string
  author :: string
  num_comments :: int
  points :: int
  objectID :: objid

text \<open>
  The reducer's state and an action's payload are untyped in the source. The program puts
  two shapes there: an array of stories (\<^verbatim>\<open>result.data.stories\<close>) and one story
  (\<^verbatim>\<open>item\<close>).
\<close>

datatype jsvalue = Stories "story list" | Item story

record action =
  type :: string
  payload :: jsvalue

text \<open>
  \<^verbatim>\<open>throw new Error()\<close> is \<open>Error\<close>. \<open>TypeError\<close> is what the engine raises
  when \<^verbatim>\<open>.filter\<close> is called on a value that is not an array.
\<close>

datatype error = Error | TypeError

section \<open>The reducer\<close>

text \<open>
  \<^verbatim>\<open>action.payload.objectID\<close>: the field of a story, \<^verbatim>\<open>undefined\<close> (\<open>None\<close>)
  on an array.
\<close>

fun payload_objectID :: "jsvalue \<Rightarrow> objid option" where
  "payload_objectID (Item item) = Some (objectID item)"
| "payload_objectID (Stories xs) = None"

text \<open>
  \<^verbatim>\<open>
  const storiesReducer = (state, action) => {
    switch (action.type) {
      case 'SET_STORIES':
        return action.payload;
      case 'REMOVE_STORY':
        return state.filter(
          (story) => action.payload.objectID !== story.objectID
        );
      default:
        throw new Error();
    }
  };
  \<close>
\<close>

definition storiesReducer :: "jsvalue \<Rightarrow> action \<Rightarrow> error + jsvalue" where
  "storiesReducer state action =
     (if type action = ''SET_STORIES'' then Inr (payload action)
      else if type action = ''REMOVE_STORY'' then
        (case state of
           Stories xs \<Rightarrow>
             Inr (Stories (filter (\<lambda>story. payload_objectID (payload action) \<noteq> Some (objectID story)) xs))
         | Item x \<Rightarrow> Inl TypeError)
      else Inl Error)"

section \<open>The search filter\<close>

text \<open>
  \<^verbatim>\<open>String.prototype.toLowerCase\<close> on ASCII text: the letters \<^verbatim>\<open>A\<close> to \<^verbatim>\<open>Z\<close>
  (codes 65 to 90) move to \<^verbatim>\<open>a\<close> to \<^verbatim>\<open>z\<close>, every other character stays.
\<close>

definition toLowerCase_char :: "char \<Rightarrow> char" where
  "toLowerCase_char c =
     (let n = (of_char c :: nat) in if 65 \<le> n \<and> n \<le> 90 then char_of (n + 32) else c)"

definition toLowerCase :: "string \<Rightarrow> string" where
  "toLowerCase s = map toLowerCase_char s"

text \<open>
  \<^verbatim>\<open>String.prototype.includes\<close>: a search from the left for an index at which
  \<open>searchString\<close> starts. The empty string is found in every string.
\<close>

fun includes_str :: "string \<Rightarrow> string \<Rightarrow> bool" where
  "includes_str [] searchString = (searchString = [])"
| "includes_str (c # cs) searchString =
     (prefix searchString (c # cs) \<or> includes_str cs searchString)"

text \<open>
  The function passed to \<^verbatim>\<open>stories.filter\<close> in \<^verbatim>\<open>App\<close>, with the search term
  as an argument:
  \<^verbatim>\<open>
  (story) => story.title.toLowerCase().includes(searchTerm.toLowerCase())
  \<close>
\<close>

definition matches :: "story \<Rightarrow> string \<Rightarrow> bool" where
  "matches story searchTerm = includes_str (toLowerCase (title story)) (toLowerCase searchTerm)"

section \<open>The storage hook\<close>

text \<open>
  \<^verbatim>\<open>localStorage\<close> is a map from keys to strings; \<^verbatim>\<open>getItem\<close> returns
  \<^verbatim>\<open>null\<close> (\<open>None\<close>) for a key that is not there.
\<close>

type_synonym storage = "string \<rightharpoonup> string"

definition getItem :: "storage \<Rightarrow> string \<Rightarrow> string option" where
  "getItem ls key = ls key"

definition setItem :: "storage \<Rightarrow> string \<Rightarrow> string \<Rightarrow> storage" where
  "setItem ls key v = ls(key \<mapsto> v)"

text \<open>
  \<^verbatim>\<open>a || b\<close> where \<open>a\<close> is a string or \<^verbatim>\<open>null\<close>: \<^verbatim>\<open>null\<close> and the empty
  string are falsy, every other string is truthy.
\<close>

fun truthy :: "string option \<Rightarrow> bool" where
  "truthy None = False"
| "truthy (Some s) = (s \<noteq> [])"

fun js_or :: "string option \<Rightarrow> string \<Rightarrow> string" where
  "js_or None b = b"
| "js_or (Some s) b = (if truthy (Some s) then s else b)"

text \<open>
  The state of one use of the hook: the \<^verbatim>\<open>value\<close> held by \<^verbatim>\<open>React.useState\<close>
  and the local storage it is written to.
\<close>

record storage_state =
  stateValue :: string
  localStorage :: storage

text \<open>
  \<^verbatim>\<open>
  const useStorageState = (key, initialState) => {
    const [value, setValue] = React.useState(
      localStorage.getItem(key) || initialState
    );
    React.useEffect(() => {
      localStorage.setItem(key, value);
    }, [value, key]);
    return [value, setValue];
  };
  \<close>
  \<open>useStorageState_initial\<close> is the argument of \<^verbatim>\<open>useState\<close>,
  \<open>useStorageState_effect\<close> the body of the effect. The effect runs after the first
  render and after every render in which \<^verbatim>\<open>[value, key]\<close> differs from the previous
  render's. \<open>setValue\<close> is the state setter followed by that render.
\<close>

definition useStorageState_initial :: "string \<Rightarrow> string \<Rightarrow> storage \<Rightarrow> string" where
  "useStorageState_initial key initialState ls = js_or (getItem ls key) initialState"

definition useStorageState_effect ::
  "string \<Rightarrow> 'a storage_state_scheme \<Rightarrow> 'a storage_state_scheme" where
  "useStorageState_effect key st =
     st\<lparr>localStorage := setItem (localStorage st) key (stateValue st)\<rparr>"

definition useStorageState :: "string \<Rightarrow> string \<Rightarrow> storage \<Rightarrow> storage_state" where
  "useStorageState key initialState ls =
     useStorageState_effect key
       \<lparr>stateValue = useStorageState_initial key initialState ls, localStorage = ls\<rparr>"

definition setValue ::
  "string \<Rightarrow> string \<Rightarrow> 'a storage_state_scheme \<Rightarrow> 'a storage_state_scheme" where
  "setValue key v st =
     (if [v, key] = [stateValue st, key] then st\<lparr>stateValue := v\<rparr>
      else useStorageState_effect key (st\<lparr>stateValue := v\<rparr>))"

text \<open>
  The hook keeps the stored value equal to the state: \<open>synced\<close> says that the storage
  holds the current value under the key.
\<close>

definition synced :: "string \<Rightarrow> 'a storage_state_scheme \<Rightarrow> bool" where
  "synced key st = (getItem (localStorage st) key = Some (stateValue st))"

text \<open>
  The draft of the component in \<^verbatim>\<open>src/unnamed/part_000\<close> reads the initial value
  with the string literal \<^verbatim>\<open>'key'\<close>: \<^verbatim>\<open>localStorage.getItem('key') || initialState\<close>.
\<close>

definition useStorageState_initial_draft :: "string \<Rightarrow> string \<Rightarrow> storage \<Rightarrow> string" where
  "useStorageState_initial_draft key initialState ls = js_or (getItem ls ''key'') initialState"

section \<open>The component\<close>

text \<open>
  The calls the component makes to its state setters, to the provider and to the
  dispatch function are recorded in \<open>trace\<close>, in the order they are made.
\<close>

datatype effect =
  SetIsLoading bool
| GetAsyncStories
| DispatchStories action
| SetIsError bool

record app = storage_state +
  stories :: jsvalue
  isLoading :: bool
  isError :: bool
  trace :: "effect list"

definition initialStories :: "story list" where
  "initialStories =
     [\<lparr>title = ''React'', url = ''https://reactjs.org/'', author = ''Jordan Walke'',
       num_comments = 3, points = 4, objectID = Num 0\<rparr>,
      \<lparr>title = ''Redux'', url = ''https://redux.js.org/'', author = ''Dan Abramov, Andrew Clark'',
       num_comments = 2, points = 5, objectID = Num 1\<rparr>]"

text \<open>
  A promise of the stories settles in one of two ways. \<^verbatim>\<open>getAsyncStories\<close> resolves
  with \<^verbatim>\<open>{ data: { stories: initialStories } }\<close> after two seconds; \<open>Resolved\<close>
  carries \<^verbatim>\<open>result.data.stories\<close>.
\<close>

datatype outcome = Resolved jsvalue | Rejected

definition getAsyncStories :: outcome where
  "getAsyncStories = Resolved (Stories initialStories)"

text \<open>
  The first render: \<^verbatim>\<open>useStorageState('search', 'React')\<close>,
  \<^verbatim>\<open>React.useReducer(storiesReducer, [])\<close> and the two \<^verbatim>\<open>React.useState(false)\<close>.
\<close>

definition App_init :: "storage \<Rightarrow> app" where
  "App_init ls =
     \<lparr>stateValue = useStorageState_initial ''search'' ''React'' ls, localStorage = ls,
      stories = Stories [], isLoading = False, isError = False, trace = []\<rparr>"

definition setIsLoading :: "bool \<Rightarrow> app \<Rightarrow> app" where
  "setIsLoading b st = st\<lparr>isLoading := b, trace := trace st @ [SetIsLoading b]\<rparr>"

definition setIsError :: "bool \<Rightarrow> app \<Rightarrow> app" where
  "setIsError b st = st\<lparr>isError := b, trace := trace st @ [SetIsError b]\<rparr>"

text \<open>
  \<^verbatim>\<open>dispatchStories(action)\<close> and the render that follows: the reducer runs on the
  current stories, and what it throws is thrown by the render.
\<close>

definition dispatchStories :: "action \<Rightarrow> app \<Rightarrow> error + app" where
  "dispatchStories a st =
     (case storiesReducer (stories st) a of
        Inl e \<Rightarrow> Inl e
      | Inr s \<Rightarrow> Inr (st\<lparr>stories := s, trace := trace st @ [DispatchStories a]\<rparr>))"

text \<open>
  \<^verbatim>\<open>
  React.useEffect(() => {
    setIsLoading(true);
    getAsyncStories()
      .then((result) => {
        dispatchStories({ type: 'SET_STORIES', payload: result.data.stories });
        setIsLoading(false);
      })
      .catch(() => setIsError(true));
  }, []);
  \<close>
  \<open>load_begin\<close> is the part that runs at once, \<open>load_settle\<close> the handler that runs
  when the promise settles.
\<close>

definition load_begin :: "app \<Rightarrow> app" where
  "load_begin st = (setIsLoading True st)\<lparr>trace := trace (setIsLoading True st) @ [GetAsyncStories]\<rparr>"

fun load_settle :: "outcome \<Rightarrow> app \<Rightarrow> error + app" where
  "load_settle (Resolved result) st =
     (case dispatchStories \<lparr>type = ''SET_STORIES'', payload = result\<rparr> st of
        Inl e \<Rightarrow> Inl e
      | Inr st' \<Rightarrow> Inr (setIsLoading False st'))"
| "load_settle Rejected st = Inr (setIsError True st)"

text \<open>The effects of the first render: the storage hook's, then the load's.\<close>

definition App_mount :: "storage \<Rightarrow> app" where
  "App_mount ls = load_begin (useStorageState_effect ''search'' (App_init ls))"

definition handleRemoveStory :: "story \<Rightarrow> app \<Rightarrow> error + app" where
  "handleRemoveStory item st = dispatchStories \<lparr>type = ''REMOVE_STORY'', payload = Item item\<rparr> st"

definition handleSearch :: "string \<Rightarrow> app \<Rightarrow> app" where
  "handleSearch v st = setValue ''search'' v st"

text \<open>
  \<^verbatim>\<open>
  const searchedStories = stories.filter((story) =>
    story.title.toLowerCase().includes(searchTerm.toLowerCase())
  );
  \<close>
\<close>

definition searchedStories :: "app \<Rightarrow> error + story list" where
  "searchedStories st =
     (case stories st of
        Stories xs \<Rightarrow> Inr (filter (\<lambda>story. matches story (stateValue st)) xs)
      | Item x \<Rightarrow> Inl TypeError)"

section \<open>Properties of the reducer\<close>

lemma storiesReducer_remove:
  "storiesReducer (Stories xs) \<lparr>type = ''REMOVE_STORY'', payload = Item item\<rparr> =
     Inr (Stories (filter (\<lambda>story. objectID story \<noteq> objectID item) xs))"
proof -
  have "filter (\<lambda>story. payload_objectID (Item item) \<noteq> Some (objectID story)) xs =
        filter (\<lambda>story. objectID story \<noteq> objectID item) xs"
    by (rule filter_cong) auto
  then show ?thesis
    by (simp add: storiesReducer_def)
qed

lemma length_filter_distinct_key:
  "distinct (map f xs) \<Longrightarrow> k \<in> f ` set xs \<Longrightarrow>
     Suc (length (filter (\<lambda>x. f x \<noteq> k) xs)) = length xs"
proof (induction xs)
  case Nil
  then show ?case by simp
next
  case (Cons x xs)
  show ?case
  proof (cases "f x = k")
    case True
    with Cons.prems have "k \<notin> f ` set xs" by auto
    then have "filter (\<lambda>x. f x \<noteq> k) xs = xs"
      by (auto simp: filter_id_conv)
    with True show ?thesis by simp
  next
    case False
    with Cons show ?thesis by auto
  qed
qed

text \<open>
  C1. Whatever the state is, a \<^verbatim>\<open>SET_STORIES\<close> action returns its payload: the list
  \<open>r\<close> itself, in its order, with nothing kept from the state.
\<close>

theorem storiesReducer_SET_STORIES:
  "storiesReducer s \<lparr>type = ''SET_STORIES'', payload = Stories r\<rparr> = Inr (Stories r)"
  by (simp add: storiesReducer_def)

text \<open>
  C2. When the object ids of the list are distinct and one story has the id of the removed
  item, \<^verbatim>\<open>REMOVE_STORY\<close> returns a list one shorter, with no story of that id, that
  is the old list with the other stories as they were and in their order.
\<close>

theorem storiesReducer_REMOVE_STORY_present:
  assumes "distinct (map objectID xs)" and "objectID item \<in> objectID ` set xs"
  shows "\<exists>ys. storiesReducer (Stories xs) \<lparr>type = ''REMOVE_STORY'', payload = Item item\<rparr>
               = Inr (Stories ys)
           \<and> length ys + 1 = length xs
           \<and> objectID item \<notin> objectID ` set ys
           \<and> ys = filter (\<lambda>story. objectID story \<noteq> objectID item) xs"
proof -
  let ?ys = "filter (\<lambda>story. objectID story \<noteq> objectID item) xs"
  have "Suc (length ?ys) = length xs"
    using assms by (rule length_filter_distinct_key)
  then have "length ?ys + 1 = length xs" by simp
  moreover have "objectID item \<notin> objectID ` set ?ys" by auto
  ultimately show ?thesis
    using storiesReducer_remove [of xs item] by blast
qed

theorem storiesReducer_REMOVE_STORY_present_witness:
  "distinct (map objectID initialStories)
   \<and> objectID (hd initialStories) \<in> objectID ` set initialStories
   \<and> storiesReducer (Stories initialStories)
         \<lparr>type = ''REMOVE_STORY'', payload = Item (hd initialStories)\<rparr>
       = Inr (Stories (tl initialStories))"
proof -
  have d: "distinct (map objectID initialStories)"
    by (simp add: initialStories_def)
  have m: "objectID (hd initialStories) \<in> objectID ` set initialStories"
    by (simp add: initialStories_def)
  have f: "filter (\<lambda>story. objectID story \<noteq> objectID (hd initialStories)) initialStories
             = tl initialStories"
    by (simp add: initialStories_def)
  show ?thesis
    using d m f storiesReducer_REMOVE_STORY_present [OF d m] by simp
qed

text \<open>
  C3. When no story of the list has the id of the removed item, \<^verbatim>\<open>REMOVE_STORY\<close>
  returns the list as it is; nothing is thrown.
\<close>

theorem storiesReducer_REMOVE_STORY_absent:
  assumes "objectID item \<notin> objectID ` set xs"
  shows "storiesReducer (Stories xs) \<lparr>type = ''REMOVE_STORY'', payload = Item item\<rparr>
           = Inr (Stories xs)"
proof -
  have "objectID story \<noteq> objectID item" if "story \<in> set xs" for story
    using assms that by (metis imageI)
  then have "filter (\<lambda>story. objectID story \<noteq> objectID item) xs = xs"
    by (simp add: filter_id_conv)
  then show ?thesis
    by (simp add: storiesReducer_remove)
qed

theorem storiesReducer_REMOVE_STORY_absent_witness:
  "objectID ((hd initialStories)\<lparr>objectID := Num 7\<rparr>) \<notin> objectID ` set initialStories
   \<and> storiesReducer (Stories initialStories)
         \<lparr>type = ''REMOVE_STORY'', payload = Item ((hd initialStories)\<lparr>objectID := Num 7\<rparr>)\<rparr>
       = Inr (Stories initialStories)"
proof -
  have a: "objectID ((hd initialStories)\<lparr>objectID := Num 7\<rparr>) \<notin> objectID ` set initialStories"
    by (simp add: initialStories_def)
  show ?thesis
    using a storiesReducer_REMOVE_STORY_absent [OF a] by simp
qed

text \<open>
  C4. An action whose type is neither \<^verbatim>\<open>SET_STORIES\<close> nor \<^verbatim>\<open>REMOVE_STORY\<close>
  makes the reducer throw \<^verbatim>\<open>new Error()\<close>, in every state: no state is returned.
\<close>

theorem storiesReducer_default_throws:
  assumes "type a \<noteq> ''SET_STORIES''" and "type a \<noteq> ''REMOVE_STORY''"
  shows "storiesReducer s a = Inl Error"
  using assms by (simp add: storiesReducer_def)

theorem storiesReducer_default_throws_witness:
  "type \<lparr>type = ''ADD_STORY'', payload = Stories []\<rparr> \<noteq> ''SET_STORIES''
   \<and> type \<lparr>type = ''ADD_STORY'', payload = Stories []\<rparr> \<noteq> ''REMOVE_STORY''
   \<and> storiesReducer (Stories initialStories) \<lparr>type = ''ADD_STORY'', payload = Stories []\<rparr>
       = Inl Error"
proof -
  have a: "type \<lparr>type = ''ADD_STORY'', payload = Stories []\<rparr> \<noteq> ''SET_STORIES''"
    by simp
  have b: "type \<lparr>type = ''ADD_STORY'', payload = Stories []\<rparr> \<noteq> ''REMOVE_STORY''"
    by simp
  show ?thesis
    using a b storiesReducer_default_throws [OF a b] by simp
qed

text \<open>
  C10. For every list of stories, also one in which several stories share the id of the
  removed item, \<^verbatim>\<open>REMOVE_STORY\<close> returns a list with no story of that id, and
  removing the same item from the result returns the result.
\<close>

theorem storiesReducer_REMOVE_STORY_idempotent:
  "\<exists>ys. storiesReducer (Stories xs) \<lparr>type = ''REMOVE_STORY'', payload = Item item\<rparr>
          = Inr (Stories ys)
     \<and> objectID item \<notin> objectID ` set ys
     \<and> storiesReducer (Stories ys) \<lparr>type = ''REMOVE_STORY'', payload = Item item\<rparr>
          = Inr (Stories ys)"
proof -
  let ?ys = "filter (\<lambda>story. objectID story \<noteq> objectID item) xs"
  have "objectID item \<notin> objectID ` set ?ys" by auto
  moreover have "filter (\<lambda>story. objectID story \<noteq> objectID item) ?ys = ?ys"
    by simp
  ultimately show ?thesis
    by (simp add: storiesReducer_remove)
qed

section \<open>Properties of the search filter\<close>

lemma includes_str_sublist: "includes_str t q \<longleftrightarrow> sublist q t"
  by (induction t) (simp_all add: sublist_Cons_right)

lemma matches_Nil: "matches story []"
  by (simp add: matches_def includes_str_sublist toLowerCase_def)

text \<open>
  C5. A story matches a search term exactly when the lower-cased term is a contiguous
  part of the story's lower-cased title (\<open>sublist q t\<close> says that \<open>t = ps @ q @ ss\<close>
  for some \<open>ps\<close> and \<open>ss\<close>). The empty term matches every story, and two stories with
  the same title match the same terms, whatever their other fields are.
\<close>

theorem matches_title_sublist:
  "(matches story q \<longleftrightarrow> sublist (toLowerCase q) (toLowerCase (title story)))
   \<and> matches story []
   \<and> (title story' = title story \<longrightarrow> matches story' q = matches story q)"
  by (simp add: matches_def includes_str_sublist toLowerCase_def)

theorem matches_title_sublist_witness:
  "title ((hd initialStories)\<lparr>url := ''redux'', author := ''redux''\<rparr>) = title (hd initialStories)
   \<and> matches (hd initialStories) ''EAC''
   \<and> matches ((hd initialStories)\<lparr>url := ''redux'', author := ''redux''\<rparr>) ''EAC''
   \<and> \<not> matches ((hd initialStories)\<lparr>url := ''redux'', author := ''redux''\<rparr>) ''redux''
   \<and> sublist (toLowerCase ''EAC'') (toLowerCase (title (hd initialStories)))"
proof -
  let ?s = "(hd initialStories)\<lparr>url := ''redux'', author := ''redux''\<rparr>"
  have t: "title ?s = title (hd initialStories)"
    by simp
  have m: "matches (hd initialStories) ''EAC''"
    by code_simp
  have n: "\<not> matches (hd initialStories) ''redux''"
    by code_simp
  show ?thesis
    using t m n
      matches_title_sublist [of "hd initialStories" "''EAC''" ?s]
      matches_title_sublist [of "hd initialStories" "''redux''" ?s]
    by blast
qed

section \<open>Properties of the storage hook\<close>

lemma synced_effect: "synced key (useStorageState_effect key st)"
  by (simp add: synced_def useStorageState_effect_def getItem_def setItem_def)

lemma synced_useStorageState: "synced key (useStorageState key initialState ls)"
  by (simp add: useStorageState_def synced_effect)

lemma synced_App_mount: "synced ''search'' (App_mount ls)"
  by (simp add: synced_def App_mount_def load_begin_def setIsLoading_def
      useStorageState_effect_def getItem_def setItem_def)

lemma stateValue_setValue: "stateValue (setValue key v st) = v"
  by (simp add: setValue_def useStorageState_effect_def)

lemma synced_setValue: "synced key st \<Longrightarrow> synced key (setValue key v st)"
  by (auto simp: setValue_def synced_def useStorageState_effect_def getItem_def setItem_def)

lemma synced_foldl: "synced key st \<Longrightarrow> synced key (foldl (\<lambda>s x. setValue key x s) st vs)"
  by (induction vs arbitrary: st) (simp_all add: synced_setValue)

text \<open>
  C8, as the code has it. The search term of the first render is the initial value of the
  hook for the key \<^verbatim>\<open>'search'\<close> and the default \<^verbatim>\<open>'React'\<close>. The initial value of
  the hook is the default when the storage holds nothing or the empty string under the
  key, and the stored string when that string is not empty.
\<close>

theorem useStorageState_initial_fallback:
  "stateValue (App_mount ls) = useStorageState_initial ''search'' ''React'' ls
   \<and> stateValue (useStorageState key initialState ls) = useStorageState_initial key initialState ls
   \<and> (getItem ls key = None \<or> getItem ls key = Some [] \<longrightarrow>
        useStorageState_initial key initialState ls = initialState)
   \<and> (\<forall>v. getItem ls key = Some v \<and> v \<noteq> [] \<longrightarrow> useStorageState_initial key initialState ls = v)"
  by (auto simp: useStorageState_initial_def App_mount_def App_init_def load_begin_def
      setIsLoading_def useStorageState_effect_def useStorageState_def)

theorem useStorageState_initial_fallback_witness:
  "getItem [''search'' \<mapsto> ''Redux''] ''search'' = Some ''Redux''
   \<and> useStorageState_initial ''search'' ''React'' [''search'' \<mapsto> ''Redux''] = ''Redux''
   \<and> getItem [''search'' \<mapsto> []] ''search'' = Some []
   \<and> useStorageState_initial ''search'' ''React'' [''search'' \<mapsto> []] = ''React''
   \<and> getItem Map.empty ''search'' = None
   \<and> useStorageState_initial ''search'' ''React'' Map.empty = ''React''"
proof -
  have a: "getItem [''search'' \<mapsto> ''Redux''] ''search'' = Some ''Redux''"
    by (simp add: getItem_def)
  have b: "getItem [''search'' \<mapsto> []] ''search'' = Some []"
    by (simp add: getItem_def)
  have c: "getItem Map.empty ''search'' = None"
    by (simp add: getItem_def)
  show ?thesis
    using a b c
      useStorageState_initial_fallback [of "[''search'' \<mapsto> ''Redux'']" "''search''" "''React''"]
      useStorageState_initial_fallback [of "[''search'' \<mapsto> []]" "''search''" "''React''"]
      useStorageState_initial_fallback [of Map.empty "''search''" "''React''"]
    by simp
qed

text \<open>
  C8, as the claim states it, fails when the storage holds the empty string under the
  key, which is what the hook's effect writes once the search field has been cleared: the
  value is there, and the search term of the next session is \<^verbatim>\<open>'React'\<close>.
\<close>

theorem useStorageState_initial_stored_empty:
  "getItem [''search'' \<mapsto> []] ''search'' = Some []
   \<and> useStorageState_initial ''search'' ''React'' [''search'' \<mapsto> []] = ''React''
   \<and> stateValue (App_mount [''search'' \<mapsto> []]) = ''React''"
  by (simp add: getItem_def useStorageState_initial_def App_mount_def App_init_def load_begin_def
      setIsLoading_def useStorageState_effect_def)

text \<open>
  The draft in \<^verbatim>\<open>src/unnamed/part_000\<close> does not read under the hook's key: a value
  stored under \<^verbatim>\<open>'search'\<close> is not found.
\<close>

lemma useStorageState_initial_draft_other_key:
  "useStorageState_initial_draft ''search'' ''React'' [''search'' \<mapsto> ''Redux''] = ''React''"
  by (simp add: useStorageState_initial_draft_def getItem_def)

text \<open>
  C9. After the hook has been set up and its value set any number of times, setting the
  value to \<open>v\<close> leaves \<open>v\<close> in the storage under the hook's key, for every key. The
  same holds for the component's search term, set by \<open>handleSearch\<close> and stored under
  \<^verbatim>\<open>'search'\<close>.
\<close>

theorem setValue_roundtrip:
  "getItem (localStorage (setValue key v
      (foldl (\<lambda>st x. setValue key x st) (useStorageState key initialState ls) vs))) key = Some v
   \<and> getItem (localStorage (handleSearch v
      (foldl (\<lambda>st x. handleSearch x st) (App_mount ls) vs))) ''search'' = Some v"
proof -
  let ?st = "foldl (\<lambda>st x. setValue key x st) (useStorageState key initialState ls) vs"
  let ?app = "foldl (\<lambda>st x. setValue ''search'' x st) (App_mount ls) vs"
  have "synced key ?st"
    by (rule synced_foldl) (rule synced_useStorageState)
  then have "synced key (setValue key v ?st)"
    by (rule synced_setValue)
  then have h: "getItem (localStorage (setValue key v ?st)) key = Some v"
    by (simp add: synced_def stateValue_setValue)
  have "synced ''search'' ?app"
    by (rule synced_foldl) (rule synced_App_mount)
  then have "synced ''search'' (setValue ''search'' v ?app)"
    by (rule synced_setValue)
  then have "getItem (localStorage (setValue ''search'' v ?app)) ''search'' = Some v"
    by (simp add: synced_def stateValue_setValue)
  then have a: "getItem (localStorage (handleSearch v
      (foldl (\<lambda>st x. handleSearch x st) (App_mount ls) vs))) ''search'' = Some v"
    by (simp add: handleSearch_def)
  from h a show ?thesis by simp
qed

section \<open>Properties of the load\<close>

lemma load_settle_Resolved:
  "load_settle (Resolved (Stories r)) st =
     Inr (setIsLoading False (st\<lparr>stories := Stories r,
       trace := trace st @ [DispatchStories \<lparr>type = ''SET_STORIES'', payload = Stories r\<rparr>]\<rparr>))"
  by (simp add: dispatchStories_def storiesReducer_def)

lemma searchedStories_empty_term:
  "stories st = Stories r \<Longrightarrow> stateValue st = [] \<Longrightarrow> searchedStories st = Inr r"
  by (simp add: searchedStories_def matches_Nil)

lemma stateValue_App_mount: "stateValue (App_mount ls) \<noteq> []"
  by (cases "ls ''search''")
    (simp_all add: App_mount_def App_init_def load_begin_def setIsLoading_def
      useStorageState_effect_def useStorageState_initial_def getItem_def)

text \<open>
  C6. Every load that resolves with a list \<open>r\<close> makes four calls, in this order:
  \<^verbatim>\<open>setIsLoading(true)\<close>, the provider, the dispatch of \<^verbatim>\<open>SET_STORIES\<close> with
  \<open>r\<close>, \<^verbatim>\<open>setIsLoading(false)\<close>. After the first two the loading flag is set and
  the stories are the old ones; after the last two the stories are \<open>r\<close>, the loading flag
  is cleared and the error flag is what it was. The component starts its load in the
  effects of the first render, with no stories and a search term that is not empty. When
  the search term is cleared while the promise is pending, or after it has resolved, the
  filtered list is \<open>r\<close>, in the order of \<open>r\<close>; on the run from the first render
  neither flag is set then and the four calls are all the calls made.
\<close>

theorem load_resolved:
  "isLoading (load_begin st) \<and> stories (load_begin st) = stories st
   \<and> trace (load_begin st) = trace st @ [SetIsLoading True, GetAsyncStories]
   \<and> (\<exists>st'. load_settle (Resolved (Stories r)) (load_begin st) = Inr st'
        \<and> trace st' = trace st @ [SetIsLoading True, GetAsyncStories,
              DispatchStories \<lparr>type = ''SET_STORIES'', payload = Stories r\<rparr>, SetIsLoading False]
        \<and> stories st' = Stories r
        \<and> \<not> isLoading st' \<and> isError st' = isError st
        \<and> searchedStories (handleSearch [] st') = Inr r)
   \<and> (\<exists>st'. load_settle (Resolved (Stories r)) (handleSearch [] (load_begin st)) = Inr st'
        \<and> trace st' = trace st @ [SetIsLoading True, GetAsyncStories,
              DispatchStories \<lparr>type = ''SET_STORIES'', payload = Stories r\<rparr>, SetIsLoading False]
        \<and> searchedStories st' = Inr r
        \<and> \<not> isLoading st' \<and> isError st' = isError st)
   \<and> stories (handleSearch [] (App_mount ls)) = Stories []
   \<and> stateValue (handleSearch [] (App_mount ls)) = []
   \<and> (\<exists>st'. load_settle (Resolved (Stories r)) (handleSearch [] (App_mount ls)) = Inr st'
        \<and> trace st' = [SetIsLoading True, GetAsyncStories,
              DispatchStories \<lparr>type = ''SET_STORIES'', payload = Stories r\<rparr>, SetIsLoading False]
        \<and> searchedStories st' = Inr r
        \<and> \<not> isLoading st' \<and> \<not> isError st')"
proof -
  let ?a = "\<lparr>type = ''SET_STORIES'', payload = Stories r\<rparr>"
  let ?four = "[SetIsLoading True, GetAsyncStories, DispatchStories ?a, SetIsLoading False]"
  have b: "isLoading (load_begin st) \<and> stories (load_begin st) = stories st
     \<and> trace (load_begin st) = trace st @ [SetIsLoading True, GetAsyncStories]"
    by (simp add: load_begin_def setIsLoading_def)
  have settled: "\<exists>st'. load_settle (Resolved (Stories r)) p = Inr st'
        \<and> trace st' = trace p @ [DispatchStories ?a, SetIsLoading False]
        \<and> stories st' = Stories r \<and> stateValue st' = stateValue p
        \<and> \<not> isLoading st' \<and> isError st' = isError p" for p :: app
    by (simp add: load_settle_Resolved setIsLoading_def del: load_settle.simps)
  have cleared: "stateValue (handleSearch [] p) = [] \<and> trace (handleSearch [] p) = trace p
        \<and> stories (handleSearch [] p) = stories p \<and> isError (handleSearch [] p) = isError p"
    for p :: app
    by (simp add: handleSearch_def setValue_def useStorageState_effect_def)
  have c1: "\<exists>st'. load_settle (Resolved (Stories r)) (load_begin st) = Inr st'
        \<and> trace st' = trace st @ ?four
        \<and> stories st' = Stories r
        \<and> \<not> isLoading st' \<and> isError st' = isError st
        \<and> searchedStories (handleSearch [] st') = Inr r"
  proof -
    from settled [of "load_begin st"] obtain st' where
      s: "load_settle (Resolved (Stories r)) (load_begin st) = Inr st'"
        "trace st' = trace (load_begin st) @ [DispatchStories ?a, SetIsLoading False]"
        "stories st' = Stories r" "\<not> isLoading st'" "isError st' = isError (load_begin st)"
      by blast
    have "searchedStories (handleSearch [] st') = Inr r"
      using cleared [of st'] s(3) by (simp add: searchedStories_empty_term)
    moreover have "trace st' = trace st @ ?four"
      using s(2) b by simp
    moreover have "isError st' = isError st"
      using s(5) by (simp add: load_begin_def setIsLoading_def)
    ultimately show ?thesis
      using s(1,3,4) by blast
  qed
  have pending: "\<exists>st'. load_settle (Resolved (Stories r)) (handleSearch [] (load_begin q)) = Inr st'
        \<and> trace st' = trace q @ ?four
        \<and> searchedStories st' = Inr r
        \<and> \<not> isLoading st' \<and> isError st' = isError q" for q :: app
  proof -
    let ?p = "handleSearch [] (load_begin q)"
    from settled [of ?p] obtain st' where
      s: "load_settle (Resolved (Stories r)) ?p = Inr st'"
        "trace st' = trace ?p @ [DispatchStories ?a, SetIsLoading False]"
        "stories st' = Stories r" "stateValue st' = stateValue ?p"
        "\<not> isLoading st'" "isError st' = isError ?p"
      by blast
    have "stateValue st' = []"
      using s(4) cleared [of "load_begin q"] by simp
    with s(3) have "searchedStories st' = Inr r"
      by (rule searchedStories_empty_term)
    moreover have "trace st' = trace q @ ?four"
      using s(2) cleared [of "load_begin q"] by (simp add: load_begin_def setIsLoading_def)
    moreover have "isError st' = isError q"
      using s(6) cleared [of "load_begin q"] by (simp add: load_begin_def setIsLoading_def)
    ultimately show ?thesis
      using s(1,5) by blast
  qed
  have m: "stories (handleSearch [] (App_mount ls)) = Stories []"
    "stateValue (handleSearch [] (App_mount ls)) = []"
    using cleared [of "App_mount ls"]
    by (simp_all add: App_mount_def App_init_def load_begin_def setIsLoading_def
        useStorageState_effect_def)
  have c3: "\<exists>st'. load_settle (Resolved (Stories r)) (handleSearch [] (App_mount ls)) = Inr st'
        \<and> trace st' = ?four \<and> searchedStories st' = Inr r
        \<and> \<not> isLoading st' \<and> \<not> isError st'"
    using pending [of "useStorageState_effect ''search'' (App_init ls)"]
    by (simp add: App_mount_def App_init_def useStorageState_effect_def)
  from b c1 pending [of st] m c3 show ?thesis
    by blast
qed

theorem load_resolved_witness:
  "stories (handleSearch [] (App_mount Map.empty)) = Stories []
   \<and> stateValue (handleSearch [] (App_mount Map.empty)) = []
   \<and> (\<exists>st'. load_settle getAsyncStories (handleSearch [] (App_mount Map.empty)) = Inr st'
        \<and> trace st' = [SetIsLoading True, GetAsyncStories,
              DispatchStories \<lparr>type = ''SET_STORIES'', payload = Stories initialStories\<rparr>,
              SetIsLoading False]
        \<and> searchedStories st' = Inr initialStories
        \<and> \<not> isLoading st' \<and> \<not> isError st')"
  using load_resolved [where st = "App_init Map.empty" and r = initialStories and ls = Map.empty]
  unfolding getAsyncStories_def by blast

text \<open>
  When the search term is left as the first render set it, the filtered list is the part
  of \<open>r\<close> that matches it: with nothing stored the term is \<^verbatim>\<open>'React'\<close>, and of the
  two stories of \<open>initialStories\<close> the first is shown.
\<close>

lemma load_resolved_default_term:
  "\<exists>st'. load_settle getAsyncStories (App_mount Map.empty) = Inr st'
     \<and> stateValue st' = ''React''
     \<and> searchedStories st' = Inr [hd initialStories]"
proof -
  have m: "matches (hd initialStories) ''React''" "\<not> matches (hd (tl initialStories)) ''React''"
    by code_simp+
  have "filter (\<lambda>story. matches story ''React'') initialStories = [hd initialStories]"
    using m unfolding initialStories_def by simp
  then show ?thesis
    by (simp add: getAsyncStories_def load_settle_Resolved searchedStories_def setIsLoading_def
        App_mount_def App_init_def load_begin_def useStorageState_effect_def
        useStorageState_initial_def getItem_def del: load_settle.simps)
qed

text \<open>
  C7. A load whose promise rejects ends with the error flag set and the stories as they
  were before the load, and nothing is thrown. A dispatch after it does what the reducer
  does on those stories: it stores the reducer's result, or throws what the reducer throws.
  After the load of the first render the stories are the empty list.
\<close>

theorem load_rejected:
  "(\<exists>st'. load_settle Rejected (load_begin st) = Inr st'
      \<and> isError st' \<and> stories st' = stories st
      \<and> (\<forall>a. map_sum (\<lambda>e. e) stories (dispatchStories a st') = storiesReducer (stories st) a))
   \<and> (\<exists>st'. load_settle Rejected (App_mount ls) = Inr st' \<and> isError st' \<and> stories st' = Stories [])"
proof -
  let ?st' = "setIsError True (load_begin st)"
  have s: "stories ?st' = stories st" "isError ?st'"
    by (simp_all add: setIsError_def load_begin_def setIsLoading_def)
  have d: "map_sum (\<lambda>e. e) stories (dispatchStories a ?st') = storiesReducer (stories st) a" for a
    by (cases "storiesReducer (stories st) a") (simp_all add: dispatchStories_def s)
  have m: "stories (setIsError True (App_mount ls)) = Stories []"
    "isError (setIsError True (App_mount ls))"
    by (simp_all add: setIsError_def App_mount_def load_begin_def setIsLoading_def
        useStorageState_effect_def App_init_def)
  from s d m show ?thesis by simp
qed

end
